theory Spec2Isabelle
  imports Complex_Main
begin

section \<open>Schema probing results\<close>

text \<open>
  The schema probe (the external \<^verbatim>\<open>mongodb-schema\<close> package) reports, for every field
  of a collection, the list of value types the field took in the sample.  A type
  observation carries its type name and the share of documents that had it; an
  observation named \<^verbatim>\<open>Array\<close> also carries the observations of the elements
  (\<^verbatim>\<open>types\<close>) and one named \<^verbatim>\<open>Document\<close> the fields of the nested object
  (\<^verbatim>\<open>fields\<close>).  The code reads \<^verbatim>\<open>types\<close> only of an observation named
  \<^verbatim>\<open>Array\<close> and \<^verbatim>\<open>fields\<close> only of one named \<^verbatim>\<open>Document\<close>; for every other
  observation the two lists below are never looked at.
\<close>

datatype tobs =
  TObs (t_name: string) (t_probability: real) (t_types: "tobs list") (t_fields: "fobs list")
and fobs =
  FObs (f_name: string) (f_types: "tobs list")

record schema =
  schema_fields :: "fobs list"

record collection =
  collection_name :: string

section \<open>Type Resolver\<close>

text \<open>
  \<^verbatim>\<open>findBestProbabilityType\<close> returns either the object literal \<^verbatim>\<open>{ name: "String" }\<close>
  (which has a name and nothing else) or one of the observations it was given.
\<close>

datatype best_type = StringDefault | Best tobs

fun best_name :: "best_type \<Rightarrow> string" where
  "best_name StringDefault = ''String''"
| "best_name (Best t) = t_name t"

text \<open>The callback of \<^verbatim>\<open>reduce\<close>: the later observation wins only when strictly more probable.\<close>

definition reduce_step :: "tobs \<Rightarrow> tobs \<Rightarrow> tobs" where
  "reduce_step mx ty = (if t_probability ty > t_probability mx then ty else mx)"

text \<open>
  \<^verbatim>\<open>reduce\<close> without an initial value starts from the first element of the filtered
  list; the list is not empty there, since the empty case has returned before.
\<close>

definition findBestProbabilityType :: "tobs list \<Rightarrow> best_type" where
  "findBestProbabilityType types =
     (case filter (\<lambda>t. t_name t \<noteq> ''Undefined'') types of
        [] \<Rightarrow> StringDefault
      | x # xs \<Rightarrow> Best (foldl reduce_step x xs))"

section \<open>Schema Compiler\<close>

text \<open>
  A resolved field is the object \<^verbatim>\<open>{ name, type, isArray }\<close>; the last branch of
  \<^verbatim>\<open>getCollectionSchema\<close> builds it without \<^verbatim>\<open>isArray\<close>, which is \<open>None\<close> here.
  The type is the type name as a string, as in the code.  A dropped field is the
  \<^verbatim>\<open>null\<close> that the callback returns: \<open>None\<close> in the list of fields.
\<close>

record resolved_field =
  rf_name :: string
  rf_type :: string
  rf_isArray :: "bool option"

record collection_schema =
  cs_name :: string
  cs_fields :: "resolved_field option list"

text \<open>
  The callback given to \<^verbatim>\<open>schema.fields.map\<close>.  The literal \<^verbatim>\<open>{ name: "String" }\<close> is
  named neither \<^verbatim>\<open>Array\<close> nor \<^verbatim>\<open>Document\<close>, so it takes the last branch.
\<close>

definition resolve_field :: "fobs \<Rightarrow> resolved_field option" where
  "resolve_field s =
     (case findBestProbabilityType (f_types s) of
        StringDefault \<Rightarrow> Some \<lparr>rf_name = f_name s, rf_type = ''String'', rf_isArray = None\<rparr>
      | Best ty \<Rightarrow>
          if t_name ty = ''Array'' then
            Some \<lparr>rf_name = f_name s,
                  rf_type = best_name (findBestProbabilityType (t_types ty)),
                  rf_isArray = Some True\<rparr>
          else if t_name ty = ''Document'' then
            (if find (\<lambda>f. f_name f = ''lat'') (t_fields ty) \<noteq> None
                \<and> find (\<lambda>f. f_name f = ''lon'') (t_fields ty) \<noteq> None
                \<and> length (t_fields ty) = 2
             then Some \<lparr>rf_name = f_name s, rf_type = ''GeoPoint'', rf_isArray = Some False\<rparr>
             else None)
          else Some \<lparr>rf_name = f_name s, rf_type = t_name ty, rf_isArray = None\<rparr>)"

definition getCollectionSchema :: "collection \<Rightarrow> schema \<Rightarrow> collection_schema" where
  "getCollectionSchema collection schema =
     \<lparr>cs_name = collection_name collection,
      cs_fields = map resolve_field (schema_fields schema)\<rparr>"

section \<open>Mapping Compiler\<close>

text \<open>
  An index property is \<^verbatim>\<open>{ type }\<close>, for text with the sub-field
  \<^verbatim>\<open>fields: { keyword: { type, ignore_above } }\<close>.
\<close>

datatype keyword_field = KeywordField (kw_type: string) (kw_ignore_above: nat)

datatype property = Property (p_type: string) (p_keyword: "keyword_field option")

text \<open>
  The value \<^verbatim>\<open>getMapping\<close> returns; \<open>im_properties\<close> is \<^verbatim>\<open>body._doc.properties\<close>, an
  object used as a table from field names to properties.
\<close>

record index_mapping =
  im_index :: string
  im_type :: string
  im_include_type_name :: bool
  im_properties :: "string \<rightharpoonup> property"

definition exclude :: "string list" where
  "exclude = [''id'', ''__v'', ''_id'']"

text \<open>
  The assignment \<^verbatim>\<open>mapping[name] = p\<close> on the object that \<^verbatim>\<open>{}\<close> made.  Under
  \<^verbatim>\<open>__proto__\<close> it runs the setter that the object inherits: the property object
  becomes the prototype of the table, and the table gets no property of its own.  Under
  any other name it makes or replaces the property of that name.  The table is the
  object's own properties, which is what is sent to the search engine.
\<close>

definition mapping_assign :: "(string \<rightharpoonup> property) \<Rightarrow> string \<Rightarrow> property \<Rightarrow> (string \<rightharpoonup> property)" where
  "mapping_assign mapping name p = (if name = ''__proto__'' then mapping else mapping(name \<mapsto> p))"

text \<open>The body of the loop of \<^verbatim>\<open>getMapping\<close>: an assignment to the table, or nothing.\<close>

definition mapping_step :: "resolved_field \<Rightarrow> (string \<rightharpoonup> property) \<Rightarrow> (string \<rightharpoonup> property)" where
  "mapping_step field mapping =
     (if rf_type field = ''String'' then
        mapping_assign mapping (rf_name field)
          (Property ''text'' (Some (KeywordField ''keyword'' 256)))
      else if rf_type field = ''Number'' then
        mapping_assign mapping (rf_name field) (Property ''double'' None)
      else if rf_type field = ''Boolean'' then
        mapping_assign mapping (rf_name field) (Property ''boolean'' None)
      else if rf_type field = ''Date'' then
        mapping_assign mapping (rf_name field) (Property ''date'' None)
      else if rf_type field = ''GeoPoint'' then
        mapping_assign mapping (rf_name field) (Property ''geo_point'' None)
      else mapping)"

text \<open>
  The command-line flag is \<^verbatim>\<open>undefined\<close> when it is not given (\<open>None\<close>); the conditional
  expression takes it as false then.
\<close>

definition flag_set :: "bool option \<Rightarrow> bool" where
  "flag_set flag = (flag = Some True)"

text \<open>
  \<^verbatim>\<open>pluralize.singular\<close> belongs to an external package and is a parameter.
  \<^verbatim>\<open>filter((f) => f)\<close> keeps the entries that are not \<^verbatim>\<open>null\<close>.
\<close>

definition getMapping ::
  "(string \<Rightarrow> string) \<Rightarrow> collection_schema \<Rightarrow> bool option \<Rightarrow> index_mapping" where
  "getMapping singular collectionSchema singularize =
     \<lparr>im_index = (if flag_set singularize then singular (cs_name collectionSchema)
                  else cs_name collectionSchema),
      im_type = ''_doc'',
      im_include_type_name = True,
      im_properties =
        fold mapping_step
          (filter (\<lambda>f. rf_name f \<notin> set exclude) [f. Some f \<leftarrow> cs_fields collectionSchema])
          Map.empty\<rparr>"

section \<open>Document Normalizer\<close>

text \<open>
  The values of a document.  A date is its time value in milliseconds, or \<open>None\<close> for
  the date without one (an invalid date, which a stored date out of JavaScript's range
  becomes).  An object is the list of its own enumerable properties in the order of
  \<^verbatim>\<open>Object.keys\<close>, every key once, together with what its prototype chain is for the
  code: \<open>Plain\<close> for an object without a class that inherits from
  \<^verbatim>\<open>Object.prototype\<close>, as an object literal and a decoded nested document do;
  \<open>Instance\<close> for the instance of a class, named (an \<^verbatim>\<open>ObjectID\<close>, say), which
  inherits from \<^verbatim>\<open>Object.prototype\<close> too; \<open>Bare\<close> for an object whose chain does
  not reach \<^verbatim>\<open>Object.prototype\<close>, as \<^verbatim>\<open>Object.create(null)\<close> makes.  What an object
  inherits beyond that is never read by the code and is not part of a value.
\<close>

datatype obj_kind = Plain | Instance string | Bare

datatype jsval =
  JUndefined
| JNull
| JBool bool
| JNumber real
| JString string
| JDate "int option"
| JArray "jsval list"
| JObject obj_kind "(string \<times> jsval) list"

type_synonym document = "(string \<times> jsval) list"

text \<open>
  What can be thrown: a \<^verbatim>\<open>TypeError\<close> and a \<^verbatim>\<open>RangeError\<close> of the runtime, and the
  error that \<^verbatim>\<open>this.error\<close> throws with its message.
\<close>

datatype error = TypeError | RangeError | CLIError string

definition instanceof_Object :: "obj_kind \<Rightarrow> bool" where
  "instanceof_Object k = (k \<noteq> Bare)"

text \<open>
  \<^verbatim>\<open>value.toISOString()\<close>: the built-in throws a \<^verbatim>\<open>RangeError\<close> for the date without
  a time value; for the others its text is a parameter.
\<close>

definition call_toISOString :: "(int \<Rightarrow> string) \<Rightarrow> int option \<Rightarrow> error + string" where
  "call_toISOString toISOString d =
     (case d of None \<Rightarrow> Inl RangeError | Some t \<Rightarrow> Inr (toISOString t))"

text \<open>
  The assignment \<^verbatim>\<open>result[key] = v\<close> on the object that \<^verbatim>\<open>{}\<close> made, with the object
  as its kind and its properties.  Under \<^verbatim>\<open>__proto__\<close> it runs the inherited setter
  and makes no property: an object or \<^verbatim>\<open>null\<close> becomes the prototype (with
  \<^verbatim>\<open>null\<close> or a \<open>Bare\<close> object the chain no longer reaches \<^verbatim>\<open>Object.prototype\<close>),
  any other value is ignored.  Under any other key it adds the property at the end
  (the keys of \<^verbatim>\<open>Object.keys\<close> come once each).  \<^verbatim>\<open>serialize\<close> never assigns a
  date, which it has turned into text before.
\<close>

fun result_assign :: "obj_kind \<times> document \<Rightarrow> string \<Rightarrow> jsval \<Rightarrow> obj_kind \<times> document" where
  "result_assign (k, ps) key v =
     (if key = ''__proto__'' then
        (case v of
           JNull \<Rightarrow> (Bare, ps)
         | JObject k' obj \<Rightarrow> (if instanceof_Object k' then Plain else Bare, ps)
         | JArray vs \<Rightarrow> (Plain, ps)
         | JDate d \<Rightarrow> (Plain, ps)
         | _ \<Rightarrow> (k, ps))
      else (k, ps @ [(key, v)]))"

text \<open>
  The loop of \<^verbatim>\<open>serialize\<close> over the keys of \<^verbatim>\<open>data\<close>, with \<^verbatim>\<open>result\<close> as it
  stands, and the chain of conditionals on one value.  The recursive call
  \<^verbatim>\<open>this.serialize(value)\<close> is the loop started on an empty \<^verbatim>\<open>result\<close>.
\<close>

fun serialize_loop :: "(int \<Rightarrow> string) \<Rightarrow> obj_kind \<times> document \<Rightarrow> document \<Rightarrow> error + jsval"
and serialize_value :: "(int \<Rightarrow> string) \<Rightarrow> jsval \<Rightarrow> error + jsval" where
  "serialize_loop toISOString result [] = Inr (JObject (fst result) (snd result))"
| "serialize_loop toISOString result ((key, v) # data) =
     (case serialize_value toISOString v of
        Inl err \<Rightarrow> Inl err
      | Inr w \<Rightarrow> serialize_loop toISOString (result_assign result key w) data)"
| "serialize_value toISOString (JDate d) =
     (case call_toISOString toISOString d of
        Inl err \<Rightarrow> Inl err
      | Inr s \<Rightarrow> Inr (JString s))"
| "serialize_value toISOString (JArray vs) = Inr (JArray vs)"
| "serialize_value toISOString (JObject k obj) =
     (if instanceof_Object k then serialize_loop toISOString (Plain, []) obj
      else Inr (JObject k obj))"
| "serialize_value toISOString v = Inr v"

definition serialize :: "(int \<Rightarrow> string) \<Rightarrow> document \<Rightarrow> error + jsval" where
  "serialize toISOString data = serialize_loop toISOString (Plain, []) data"

section \<open>Sync Orchestrator: the loop over the collections\<close>

text \<open>
  JavaScript's truth test, used on \<^verbatim>\<open>res.error\<close>: \<^verbatim>\<open>undefined\<close>, \<^verbatim>\<open>null\<close>,
  \<^verbatim>\<open>false\<close>, zero and the empty string are false, everything else is true.
\<close>

fun truthy :: "jsval \<Rightarrow> bool" where
  "truthy JUndefined = False"
| "truthy JNull = False"
| "truthy (JBool b) = b"
| "truthy (JNumber n) = (n \<noteq> 0)"
| "truthy (JString s) = (s \<noteq> [])"
| "truthy v = True"

text \<open>One entry of the bulk body: an action descriptor \<^verbatim>\<open>{ index: {...} }\<close> or a payload.\<close>

record index_action =
  a_index :: string
  a_type :: string
  a_id :: string

datatype bulk_item = IndexAction index_action | Payload document

text \<open>What the loop does to the outside, in the order it does it.\<close>

datatype event =
  Log_Syncing string
| Db_EstimatedDocumentCount string
| Log_EstimatedCount nat
| Db_Find string
| Es_Bulk "bulk_item list"

record bulk_response =
  res_error :: jsval

text \<open>
  The collaborators of the loop.  The database and the search engine answer as they
  like, also depending on everything that happened before (the events so far);
  \<open>js_toString\<close> is the text of a value that has one.  The answer of the search
  engine is decoded from JSON: scalars, arrays and plain objects.  Every call to a
  collaborator returns here; a call that fails ends the run before the loop can look at
  an answer.
\<close>

record env =
  singular :: "string \<Rightarrow> string"
  toISOString :: "int \<Rightarrow> string"
  js_toString :: "jsval \<Rightarrow> string"
  estimatedDocumentCount :: "event list \<Rightarrow> string \<Rightarrow> nat"
  find_toArray :: "event list \<Rightarrow> string \<Rightarrow> document list"
  es_bulk :: "event list \<Rightarrow> bulk_item list \<Rightarrow> bulk_response"

text \<open>Reading a property of an object: \<^verbatim>\<open>undefined\<close> when the object has no such key.\<close>

definition get_property :: "document \<Rightarrow> string \<Rightarrow> jsval" where
  "get_property obj key = (case map_of obj key of None \<Rightarrow> JUndefined | Some v \<Rightarrow> v)"

text \<open>The rest of \<^verbatim>\<open>const { _id, __v, ...data } = document\<close>.\<close>

definition rest_data :: "document \<Rightarrow> document" where
  "rest_data doc = filter (\<lambda>kv. fst kv \<noteq> ''_id'' \<and> fst kv \<noteq> ''__v'') doc"

text \<open>
  \<^verbatim>\<open>_id.toString()\<close>: a method call on \<^verbatim>\<open>undefined\<close> or \<^verbatim>\<open>null\<close> throws, and so
  does one on an object that inherits no such method.
\<close>

definition call_toString :: "(jsval \<Rightarrow> string) \<Rightarrow> jsval \<Rightarrow> error + string" where
  "call_toString toStr v =
     (case v of
        JUndefined \<Rightarrow> Inl TypeError
      | JNull \<Rightarrow> Inl TypeError
      | JObject k obj \<Rightarrow> if instanceof_Object k then Inr (toStr v) else Inl TypeError
      | _ \<Rightarrow> Inr (toStr v))"

text \<open>
  \<^verbatim>\<open>{ ...v }\<close>: a new plain object with the own properties of \<^verbatim>\<open>v\<close>, which is an
  object here, as \<^verbatim>\<open>serialize\<close> returns nothing else.
\<close>

definition spread :: "jsval \<Rightarrow> document" where
  "spread v = (case v of JObject k obj \<Rightarrow> obj | _ \<Rightarrow> [])"

text \<open>The inner loop over the documents, which fills \<^verbatim>\<open>bulk\<close> with two entries each.\<close>

fun build_bulk :: "env \<Rightarrow> bool option \<Rightarrow> string \<Rightarrow> document list \<Rightarrow> error + bulk_item list" where
  "build_bulk e flag name [] = Inr []"
| "build_bulk e flag name (doc # docs) =
     (case call_toString (js_toString e) (get_property doc ''_id'') of
        Inl err \<Rightarrow> Inl err
      | Inr i \<Rightarrow>
          (case serialize (toISOString e) (rest_data doc) of
             Inl err \<Rightarrow> Inl err
           | Inr r \<Rightarrow>
               (case build_bulk e flag name docs of
                  Inl err \<Rightarrow> Inl err
                | Inr bulk \<Rightarrow>
                    Inr (IndexAction \<lparr>a_index = (if flag_set flag then singular e name else name),
                                      a_type = ''_doc'',
                                      a_id = i\<rparr>
                         # Payload (spread r)
                         # bulk))))"

text \<open>
  The head of one turn of the loop over \<^verbatim>\<open>collectionsSchemas\<close>: the two log lines,
  the count and the fetch of the whole collection.  It returns the events so far and the
  documents fetched.
\<close>

definition fetch_collection :: "env \<Rightarrow> event list \<Rightarrow> string \<Rightarrow> event list \<times> document list" where
  "fetch_collection e tr name =
     (let tr1 = tr @ [Log_Syncing name];
          estimatedDocsCount = estimatedDocumentCount e tr1 name;
          tr2 = tr1 @ [Db_EstimatedDocumentCount name, Log_EstimatedCount estimatedDocsCount];
          collectionData = find_toArray e tr2 name
      in (tr2 @ [Db_Find name], collectionData))"

text \<open>
  One turn of the loop, from the events so far to the events after it, with \<open>Inl\<close> when
  the turn throws: the bulk body is built, sent when it is not empty, and the answer's
  \<^verbatim>\<open>error\<close> is tested.
\<close>

definition sync_collection ::
  "env \<Rightarrow> bool option \<Rightarrow> event list \<Rightarrow> collection_schema \<Rightarrow> event list \<times> (error + unit)" where
  "sync_collection e flag tr collectionSchema =
     (case fetch_collection e tr (cs_name collectionSchema) of
        (tr3, collectionData) \<Rightarrow>
          (case build_bulk e flag (cs_name collectionSchema) collectionData of
             Inl err \<Rightarrow> (tr3, Inl err)
           | Inr bulk \<Rightarrow>
               if length bulk \<noteq> 0 then
                 (let res = es_bulk e tr3 bulk;
                      tr4 = tr3 @ [Es_Bulk bulk]
                  in if truthy (res_error res)
                     then (tr4, Inl (CLIError (''Error syncing '' @ cs_name collectionSchema @ '': ''
                                                @ js_toString e (res_error res))))
                     else (tr4, Inr ()))
               else (tr3, Inr ())))"

fun sync_collections ::
  "env \<Rightarrow> bool option \<Rightarrow> event list \<Rightarrow> collection_schema list \<Rightarrow> event list \<times> (error + unit)" where
  "sync_collections e flag tr [] = (tr, Inr ())"
| "sync_collections e flag tr (collectionSchema # rest) =
     (case sync_collection e flag tr collectionSchema of
        (tr', Inl err) \<Rightarrow> (tr', Inl err)
      | (tr', Inr u) \<Rightarrow> sync_collections e flag tr' rest)"

section \<open>The type table of the specification\<close>

text \<open>
  The table of section 4.3 of the specification, written from its words, to be compared
  with the chain of conditionals of \<^verbatim>\<open>getMapping\<close>: a type tag outside the five has
  no entry.
\<close>

definition spec_property_table :: "string \<Rightarrow> property option" where
  "spec_property_table ty =
     map_of [(''String'', Property ''text'' (Some (KeywordField ''keyword'' 256))),
             (''Number'', Property ''double'' None),
             (''Boolean'', Property ''boolean'' None),
             (''Date'', Property ''date'' None),
             (''GeoPoint'', Property ''geo_point'' None)] ty"

section \<open>The normal form of a document\<close>

text \<open>
  The trees that claim C4, as the code has it, is about: every date that
  \<^verbatim>\<open>serialize\<close> comes to has a time value, and no object that it comes to has an own
  key \<^verbatim>\<open>__proto__\<close>.  It comes to the values of the tree and of the nested objects
  that are instances of \<^verbatim>\<open>Object\<close>, not to the elements of an array and not into a
  \<open>Bare\<close> object.
\<close>

fun valid_dates :: "document \<Rightarrow> bool"
and valid_dates_value :: "jsval \<Rightarrow> bool" where
  "valid_dates [] = True"
| "valid_dates ((key, v) # data) = (valid_dates_value v \<and> valid_dates data)"
| "valid_dates_value (JDate d) = (d \<noteq> None)"
| "valid_dates_value (JObject Plain obj) = valid_dates obj"
| "valid_dates_value (JObject (Instance c) obj) = valid_dates obj"
| "valid_dates_value (JObject Bare obj) = True"
| "valid_dates_value v = True"

fun ordinary_keys :: "document \<Rightarrow> bool"
and ordinary_keys_value :: "jsval \<Rightarrow> bool" where
  "ordinary_keys [] = True"
| "ordinary_keys ((key, v) # data) =
     (key \<noteq> ''__proto__'' \<and> ordinary_keys_value v \<and> ordinary_keys data)"
| "ordinary_keys_value (JObject Plain obj) = ordinary_keys obj"
| "ordinary_keys_value (JObject (Instance c) obj) = ordinary_keys obj"
| "ordinary_keys_value (JObject Bare obj) = True"
| "ordinary_keys_value v = True"

text \<open>
  The normal form that section 4.4 of the specification describes, written from its
  words, with the nested objects taken as the code takes them: the same keys; under each
  a date replaced by its text, an array as it is, a nested object that is an instance of
  \<^verbatim>\<open>Object\<close>, plain or of a class, replaced by the plain object of its own properties
  in normal form, and any other value as it is.  (A date without a time value has no
  text; no statement below is about one.)
\<close>

fun normalized :: "(int \<Rightarrow> string) \<Rightarrow> document \<Rightarrow> document"
and normalized_value :: "(int \<Rightarrow> string) \<Rightarrow> jsval \<Rightarrow> jsval" where
  "normalized toISO [] = []"
| "normalized toISO ((key, v) # data) = (key, normalized_value toISO v) # normalized toISO data"
| "normalized_value toISO (JDate d) = (case d of Some t \<Rightarrow> JString (toISO t) | None \<Rightarrow> JDate d)"
| "normalized_value toISO (JArray vs) = JArray vs"
| "normalized_value toISO (JObject Plain obj) = JObject Plain (normalized toISO obj)"
| "normalized_value toISO (JObject (Instance c) obj) = JObject Plain (normalized toISO obj)"
| "normalized_value toISO (JObject Bare obj) = JObject Bare obj"
| "normalized_value toISO v = v"

section \<open>A small world for the instances\<close>

text \<open>
  Three collections: \<^verbatim>\<open>users\<close> and \<^verbatim>\<open>orders\<close> with one document each and
  \<^verbatim>\<open>logs\<close> with none.  The search engine answers the bulk request for \<^verbatim>\<open>orders\<close>
  with an error and every other one without.
\<close>

definition demo_env :: env where
  "demo_env =
     \<lparr>singular = (\<lambda>s. if s = ''users'' then ''user'' else s),
      toISOString = (\<lambda>t. ''1970-01-01T00:00:00.000Z''),
      js_toString = (\<lambda>v. case v of JString s \<Rightarrow> s | _ \<Rightarrow> ''[object Object]''),
      estimatedDocumentCount = (\<lambda>tr name. if name = ''logs'' then 0 else 1),
      find_toArray = (\<lambda>tr name.
        if name = ''logs'' then []
        else [[(''_id'', JString ''1''), (''name'', JString ''Ann''), (''signup'', JDate (Some 0))]]),
      es_bulk = (\<lambda>tr bulk.
        \<lparr>res_error = (if last tr = Db_Find ''orders'' then JString ''boom'' else JUndefined)\<rparr>)\<rparr>"

definition demo_schema :: "string \<Rightarrow> collection_schema" where
  "demo_schema name = \<lparr>cs_name = name, cs_fields = []\<rparr>"

section \<open>Properties of the Type Resolver\<close>

lemma foldl_reduce_step_first_max:
  "\<exists>i<length (x # xs).
      foldl reduce_step x xs = (x # xs) ! i
    \<and> (\<forall>j<length (x # xs). t_probability ((x # xs) ! j) \<le> t_probability ((x # xs) ! i))
    \<and> (\<forall>j<i. t_probability ((x # xs) ! j) < t_probability ((x # xs) ! i))"
proof (induction xs rule: rev_induct)
  case Nil
  show ?case by simp
next
  case (snoc y ys)
  then obtain i where i: "i < length (x # ys)"
    and res: "foldl reduce_step x ys = (x # ys) ! i"
    and mx: "\<forall>j<length (x # ys). t_probability ((x # ys) ! j) \<le> t_probability ((x # ys) ! i)"
    and fst: "\<forall>j<i. t_probability ((x # ys) ! j) < t_probability ((x # ys) ! i)"
    by blast
  have pre: "\<And>j. j < length (x # ys) \<Longrightarrow> (x # ys @ [y]) ! j = (x # ys) ! j"
    by (metis append_Cons nth_append)
  have lst: "(x # ys @ [y]) ! length (x # ys) = y"
    by (metis append_Cons nth_append_length)
  show ?case
  proof (cases "t_probability y > t_probability ((x # ys) ! i)")
    case True
    let ?k = "length (x # ys)"
    have "foldl reduce_step x (ys @ [y]) = (x # ys @ [y]) ! ?k"
      using True res lst by (simp add: reduce_step_def)
    moreover have "\<forall>j<length (x # ys @ [y]).
        t_probability ((x # ys @ [y]) ! j) \<le> t_probability ((x # ys @ [y]) ! ?k)"
    proof (intro allI impI)
      fix j assume "j < length (x # ys @ [y])"
      then consider "j < length (x # ys)" | "j = length (x # ys)" by fastforce
      then show "t_probability ((x # ys @ [y]) ! j) \<le> t_probability ((x # ys @ [y]) ! ?k)"
      proof cases
        case 1
        then show ?thesis using pre[OF 1] lst mx True by (metis less_le_not_le order_trans linear)
      next
        case 2
        then show ?thesis by simp
      qed
    qed
    moreover have "\<forall>j<?k. t_probability ((x # ys @ [y]) ! j) < t_probability ((x # ys @ [y]) ! ?k)"
    proof (intro allI impI)
      fix j assume j: "j < ?k"
      have "t_probability ((x # ys) ! j) \<le> t_probability ((x # ys) ! i)" using mx j by blast
      then show "t_probability ((x # ys @ [y]) ! j) < t_probability ((x # ys @ [y]) ! ?k)"
        using pre[OF j] lst True by (metis le_less_trans)
    qed
    moreover have "?k < length (x # ys @ [y])" by simp
    ultimately show ?thesis by blast
  next
    case False
    have "foldl reduce_step x (ys @ [y]) = (x # ys @ [y]) ! i"
      using False res pre[OF i] by (simp add: reduce_step_def)
    moreover have "\<forall>j<length (x # ys @ [y]).
        t_probability ((x # ys @ [y]) ! j) \<le> t_probability ((x # ys @ [y]) ! i)"
    proof (intro allI impI)
      fix j assume "j < length (x # ys @ [y])"
      then consider "j < length (x # ys)" | "j = length (x # ys)" by fastforce
      then show "t_probability ((x # ys @ [y]) ! j) \<le> t_probability ((x # ys @ [y]) ! i)"
      proof cases
        case 1
        then show ?thesis using pre[OF 1] pre[OF i] mx by metis
      next
        case 2
        then show ?thesis using lst pre[OF i] False by (metis not_le_imp_less not_less)
      qed
    qed
    moreover have "\<forall>j<i. t_probability ((x # ys @ [y]) ! j) < t_probability ((x # ys @ [y]) ! i)"
    proof (intro allI impI)
      fix j assume j: "j < i"
      then have j': "j < length (x # ys)" using i by linarith
      show "t_probability ((x # ys @ [y]) ! j) < t_probability ((x # ys @ [y]) ! i)"
        using pre[OF j'] pre[OF i] fst j by metis
    qed
    moreover have "i < length (x # ys @ [y])" using i by simp
    ultimately show ?thesis by blast
  qed
qed

text \<open>
  Claim C1.  When every observation is named \<^verbatim>\<open>Undefined\<close> the resolver returns the
  literal whose name is \<^verbatim>\<open>String\<close>, and the field is resolved to the type
  \<^verbatim>\<open>String\<close>.  Otherwise it returns one of the other observations, the candidates
  in their input order, under its own name: its probability is at least that of every
  candidate, and every candidate before it has a strictly smaller one, so among equally
  probable candidates the first one met is returned.
\<close>

theorem findBestProbabilityType_contract:
  "((\<forall>t\<in>set ts. t_name t = ''Undefined'') \<longrightarrow>
        findBestProbabilityType ts = StringDefault
      \<and> best_name (findBestProbabilityType ts) = ''String'')
   \<and> ((\<forall>t\<in>set (f_types s). t_name t = ''Undefined'') \<longrightarrow>
        resolve_field s = Some \<lparr>rf_name = f_name s, rf_type = ''String'', rf_isArray = None\<rparr>)
   \<and> ((\<exists>t\<in>set ts. t_name t \<noteq> ''Undefined'') \<longrightarrow>
        (\<exists>i<length (filter (\<lambda>t. t_name t \<noteq> ''Undefined'') ts).
            findBestProbabilityType ts = Best (filter (\<lambda>t. t_name t \<noteq> ''Undefined'') ts ! i)
          \<and> best_name (findBestProbabilityType ts)
              = t_name (filter (\<lambda>t. t_name t \<noteq> ''Undefined'') ts ! i)
          \<and> (\<forall>j<length (filter (\<lambda>t. t_name t \<noteq> ''Undefined'') ts).
                t_probability (filter (\<lambda>t. t_name t \<noteq> ''Undefined'') ts ! j)
                  \<le> t_probability (filter (\<lambda>t. t_name t \<noteq> ''Undefined'') ts ! i))
          \<and> (\<forall>j<i. t_probability (filter (\<lambda>t. t_name t \<noteq> ''Undefined'') ts ! j)
                  < t_probability (filter (\<lambda>t. t_name t \<noteq> ''Undefined'') ts ! i))))"
proof (intro conjI impI)
  assume "\<forall>t\<in>set ts. t_name t = ''Undefined''"
  then have "filter (\<lambda>t. t_name t \<noteq> ''Undefined'') ts = []"
    by (simp add: filter_empty_conv)
  then show d: "findBestProbabilityType ts = StringDefault"
    by (simp add: findBestProbabilityType_def)
  show "best_name (findBestProbabilityType ts) = ''String''"
    unfolding d by simp
next
  assume "\<forall>t\<in>set (f_types s). t_name t = ''Undefined''"
  then have "filter (\<lambda>t. t_name t \<noteq> ''Undefined'') (f_types s) = []"
    by (simp add: filter_empty_conv)
  then have "findBestProbabilityType (f_types s) = StringDefault"
    by (simp add: findBestProbabilityType_def)
  then show "resolve_field s = Some \<lparr>rf_name = f_name s, rf_type = ''String'', rf_isArray = None\<rparr>"
    by (simp add: resolve_field_def)
next
  let ?c = "filter (\<lambda>t. t_name t \<noteq> ''Undefined'') ts"
  assume "\<exists>t\<in>set ts. t_name t \<noteq> ''Undefined''"
  then have "?c \<noteq> []" by (simp add: filter_empty_conv)
  then obtain x xs where c: "?c = x # xs" by (cases ?c) auto
  then have b: "findBestProbabilityType ts = Best (foldl reduce_step x xs)"
    by (simp add: findBestProbabilityType_def)
  from foldl_reduce_step_first_max[of x xs] obtain i where i: "i < length (x # xs)"
    and r: "foldl reduce_step x xs = (x # xs) ! i"
    and m: "\<forall>j<length (x # xs). t_probability ((x # xs) ! j) \<le> t_probability ((x # xs) ! i)"
    and f: "\<forall>j<i. t_probability ((x # xs) ! j) < t_probability ((x # xs) ! i)"
    by blast
  have "findBestProbabilityType ts = Best (?c ! i)" using b r c by simp
  moreover from this have "best_name (findBestProbabilityType ts) = t_name (?c ! i)" by simp
  moreover have "\<forall>j<length ?c. t_probability (?c ! j) \<le> t_probability (?c ! i)"
    using m unfolding c .
  moreover have "\<forall>j<i. t_probability (?c ! j) < t_probability (?c ! i)"
    using f unfolding c .
  moreover have "i < length ?c" using i unfolding c .
  ultimately show "\<exists>i<length ?c. findBestProbabilityType ts = Best (?c ! i)
          \<and> best_name (findBestProbabilityType ts) = t_name (?c ! i)
          \<and> (\<forall>j<length ?c. t_probability (?c ! j) \<le> t_probability (?c ! i))
          \<and> (\<forall>j<i. t_probability (?c ! j) < t_probability (?c ! i))"
    by blast
qed

text \<open>
  An instance: the absent marker is the most frequent and is skipped; \<^verbatim>\<open>Number\<close> and
  \<^verbatim>\<open>String\<close> tie and the first wins.  A field that was only ever absent is a string.
\<close>

theorem findBestProbabilityType_contract_witness:
  "(\<exists>t\<in>set [TObs ''Undefined'' 0.6 [] [], TObs ''Number'' 0.2 [] [], TObs ''String'' 0.2 [] []].
       t_name t \<noteq> ''Undefined'')
   \<and> findBestProbabilityType
        [TObs ''Undefined'' 0.6 [] [], TObs ''Number'' 0.2 [] [], TObs ''String'' 0.2 [] []]
       = Best (TObs ''Number'' 0.2 [] [])
   \<and> list_all (\<lambda>t. t_name t = ''Undefined'') [TObs ''Undefined'' 1 [] []]
   \<and> findBestProbabilityType [TObs ''Undefined'' 1 [] []] = StringDefault
   \<and> best_name (findBestProbabilityType [TObs ''Undefined'' 1 [] []]) = ''String''
   \<and> resolve_field (FObs ''nick'' [TObs ''Undefined'' 1 [] []])
       = Some \<lparr>rf_name = ''nick'', rf_type = ''String'', rf_isArray = None\<rparr>"
proof -
  let ?ts = "[TObs ''Undefined'' 0.6 [] [], TObs ''Number'' 0.2 [] [], TObs ''String'' 0.2 [] []]"
  let ?us = "[TObs ''Undefined'' 1 [] []]"
  have u: "\<forall>t\<in>set ?us. t_name t = ''Undefined''" by simp
  have u': "\<forall>t\<in>set (f_types (FObs ''nick'' ?us)). t_name t = ''Undefined''" by simp
  have e: "\<exists>t\<in>set ?ts. t_name t \<noteq> ''Undefined''" by simp
  note a = findBestProbabilityType_contract[of ?us, THEN conjunct1, THEN mp, OF u]
  have b: "resolve_field (FObs ''nick'' ?us)
       = Some \<lparr>rf_name = ''nick'', rf_type = ''String'', rf_isArray = None\<rparr>"
    using findBestProbabilityType_contract[of _ "FObs ''nick'' ?us", THEN conjunct2, THEN conjunct1,
        THEN mp, OF u'] by simp
  have c: "findBestProbabilityType ?ts = Best (TObs ''Number'' 0.2 [] [])"
    by (simp add: findBestProbabilityType_def reduce_step_def)
  have l: "list_all (\<lambda>t. t_name t = ''Undefined'') ?us" by simp
  from e c l a b show ?thesis by blast
qed

section \<open>Properties of the Mapping Compiler\<close>

lemma mapping_step_table:
  "mapping_step f m =
     (case spec_property_table (rf_type f) of
        None \<Rightarrow> m
      | Some p \<Rightarrow> mapping_assign m (rf_name f) p)"
  by (simp add: mapping_step_def spec_property_table_def)

lemma mapping_step_at:
  "mapping_step f m n =
     (if n = rf_name f \<and> n \<noteq> ''__proto__'' \<and> spec_property_table (rf_type f) \<noteq> None
      then spec_property_table (rf_type f) else m n)"
  by (auto simp: mapping_step_table[of f m] mapping_assign_def split: option.splits)

lemma set_nonnull: "f \<in> set [g. Some g \<leftarrow> xs] \<longleftrightarrow> Some f \<in> set xs"
  by (induction xs) (auto split: option.splits)

lemma fold_mapping_step_origin:
  "fold mapping_step fs m n = Some p \<Longrightarrow>
     m n = Some p \<or> (\<exists>f\<in>set fs. rf_name f = n \<and> spec_property_table (rf_type f) = Some p)"
proof (induction fs arbitrary: m)
  case Nil
  then show ?case by simp
next
  case (Cons g gs)
  from Cons.prems have "fold mapping_step gs (mapping_step g m) n = Some p" by simp
  from Cons.IH[OF this] show ?case
    by (auto simp: mapping_step_at split: if_splits)
qed

lemma fold_mapping_step_other:
  "n \<notin> rf_name ` set fs \<Longrightarrow> fold mapping_step fs m n = m n"
  by (induction fs arbitrary: m) (auto simp: mapping_step_at)

lemma fold_mapping_step_proto:
  "fold mapping_step fs m ''__proto__'' = m ''__proto__''"
  by (induction fs arbitrary: m) (auto simp: mapping_step_at)

lemma fold_mapping_step_unique:
  "f \<in> set fs \<Longrightarrow> \<forall>g\<in>set fs. rf_name g = rf_name f \<longrightarrow> g = f \<Longrightarrow>
   rf_name f \<noteq> ''__proto__'' \<Longrightarrow>
     fold mapping_step fs m (rf_name f) =
       (case spec_property_table (rf_type f) of None \<Rightarrow> m (rf_name f) | Some p \<Rightarrow> Some p)"
proof (induction fs arbitrary: m)
  case Nil
  then show ?case by simp
next
  case (Cons g gs)
  have uniq: "\<forall>h\<in>set gs. rf_name h = rf_name f \<longrightarrow> h = f" using Cons.prems(2) by simp
  have here: "mapping_step f m (rf_name f) =
      (case spec_property_table (rf_type f) of None \<Rightarrow> m (rf_name f) | Some p \<Rightarrow> Some p)"
    using Cons.prems(3) by (simp add: mapping_step_at split: option.splits)
  show ?case
  proof (cases "f \<in> set gs")
    case True
    have "fold mapping_step gs (mapping_step g m) (rf_name f) =
       (case spec_property_table (rf_type f) of
          None \<Rightarrow> mapping_step g m (rf_name f) | Some p \<Rightarrow> Some p)"
      by (rule Cons.IH[OF True uniq Cons.prems(3)])
    moreover have "spec_property_table (rf_type f) = None \<Longrightarrow>
        mapping_step g m (rf_name f) = m (rf_name f)"
      using Cons.prems(2) by (cases "rf_name g = rf_name f") (auto simp: mapping_step_at)
    ultimately show ?thesis by (auto split: option.splits)
  next
    case False
    then have gf: "g = f" using Cons.prems(1) by simp
    have "rf_name f \<notin> rf_name ` set gs" using False uniq by auto
    then have "fold mapping_step gs (mapping_step g m) (rf_name f) = mapping_step g m (rf_name f)"
      by (rule fold_mapping_step_other)
    then show ?thesis using gf here by simp
  qed
qed

text \<open>
  What holds of the property table for every schema: nothing under \<^verbatim>\<open>_id\<close>,
  \<^verbatim>\<open>__v\<close>, \<^verbatim>\<open>id\<close> and \<^verbatim>\<open>__proto__\<close>; every entry is the entry that the table of
  the specification gives for the type of a field of that name; and a field that is not
  \<^verbatim>\<open>null\<close>, not reserved, not named \<^verbatim>\<open>__proto__\<close> and the only one of its name has
  exactly what the specification's table gives for its type.
\<close>

lemma getMapping_properties:
  "(n \<in> set [''_id'', ''__v'', ''id'', ''__proto__''] \<longrightarrow>
        im_properties (getMapping sing cs flag) n = None)
   \<and> (im_properties (getMapping sing cs flag) n = Some p \<longrightarrow>
        (\<exists>f. Some f \<in> set (cs_fields cs) \<and> rf_name f = n
            \<and> spec_property_table (rf_type f) = Some p))
   \<and> (Some f \<in> set (cs_fields cs) \<and> rf_name f \<notin> set [''_id'', ''__v'', ''id'', ''__proto__'']
        \<and> (\<forall>g. Some g \<in> set (cs_fields cs) \<and> rf_name g = rf_name f \<longrightarrow> g = f) \<longrightarrow>
        im_properties (getMapping sing cs flag) (rf_name f) = spec_property_table (rf_type f))"
proof (intro conjI impI)
  let ?fs = "filter (\<lambda>f. rf_name f \<notin> set exclude) [f. Some f \<leftarrow> cs_fields cs]"
  have props: "im_properties (getMapping sing cs flag) = fold mapping_step ?fs Map.empty"
    by (simp add: getMapping_def)
  {
    assume a: "n \<in> set [''_id'', ''__v'', ''id'', ''__proto__'']"
    show "im_properties (getMapping sing cs flag) n = None"
    proof (cases "n = ''__proto__''")
      case True
      then show ?thesis unfolding props by (simp add: fold_mapping_step_proto)
    next
      case False
      with a have "n \<in> set exclude" by (auto simp: exclude_def)
      then have "n \<notin> rf_name ` set ?fs" by auto
      then show ?thesis unfolding props by (simp add: fold_mapping_step_other)
    qed
  }
  {
    assume "im_properties (getMapping sing cs flag) n = Some p"
    then have "fold mapping_step ?fs Map.empty n = Some p" unfolding props .
    from fold_mapping_step_origin[OF this]
    obtain f where "f \<in> set ?fs" "rf_name f = n" "spec_property_table (rf_type f) = Some p"
      by auto
    then show "\<exists>f. Some f \<in> set (cs_fields cs) \<and> rf_name f = n
            \<and> spec_property_table (rf_type f) = Some p"
      using set_nonnull by auto
  }
  {
    assume a: "Some f \<in> set (cs_fields cs)
        \<and> rf_name f \<notin> set [''_id'', ''__v'', ''id'', ''__proto__'']
        \<and> (\<forall>g. Some g \<in> set (cs_fields cs) \<and> rf_name g = rf_name f \<longrightarrow> g = f)"
    then have "rf_name f \<notin> set exclude" by (auto simp: exclude_def)
    then have mem: "f \<in> set ?fs" using a set_nonnull by auto
    have uniq: "\<forall>g\<in>set ?fs. rf_name g = rf_name f \<longrightarrow> g = f" using a set_nonnull by auto
    have np: "rf_name f \<noteq> ''__proto__''" using a by simp
    show "im_properties (getMapping sing cs flag) (rf_name f) = spec_property_table (rf_type f)"
      unfolding props fold_mapping_step_unique[OF mem uniq np] by (simp split: option.splits)
  }
qed

text \<open>
  Claim C2, where the code misses it.  The claim holds of the code but for one field
  name.  A field named \<^verbatim>\<open>__proto__\<close> of type \<^verbatim>\<open>String\<close> is none of the three
  reserved names and the table of the specification has the text property for its type,
  yet \<^verbatim>\<open>getMapping\<close> emits no property for it: the assignment under that name sets the
  prototype of the table.  The field \<^verbatim>\<open>name\<close> next to it gets its property.
\<close>

theorem getMapping_proto_field_missed:
  "im_properties (getMapping id
      \<lparr>cs_name = ''users'',
       cs_fields = [Some \<lparr>rf_name = ''__proto__'', rf_type = ''String'', rf_isArray = None\<rparr>,
                    Some \<lparr>rf_name = ''name'', rf_type = ''String'', rf_isArray = None\<rparr>]\<rparr>
      None) ''__proto__'' = None
   \<and> im_properties (getMapping id
      \<lparr>cs_name = ''users'',
       cs_fields = [Some \<lparr>rf_name = ''__proto__'', rf_type = ''String'', rf_isArray = None\<rparr>,
                    Some \<lparr>rf_name = ''name'', rf_type = ''String'', rf_isArray = None\<rparr>]\<rparr>
      None) ''name'' = Some (Property ''text'' (Some (KeywordField ''keyword'' 256)))
   \<and> ''__proto__'' \<notin> set [''_id'', ''__v'', ''id'']
   \<and> spec_property_table ''String'' = Some (Property ''text'' (Some (KeywordField ''keyword'' 256)))"
  by (simp add: getMapping_def mapping_step_def mapping_assign_def exclude_def
      spec_property_table_def)

section \<open>Properties of the Schema Compiler\<close>

lemma find_name_iff: "find (\<lambda>f. f_name f = a) fs \<noteq> None \<longleftrightarrow> a \<in> set (map f_name fs)"
  by (auto simp: find_None_iff)

lemma geo_shape_iff:
  "(find (\<lambda>f. f_name f = ''lat'') fs \<noteq> None
      \<and> find (\<lambda>f. f_name f = ''lon'') fs \<noteq> None \<and> length fs = 2)
   \<longleftrightarrow> (map f_name fs = [''lat'', ''lon''] \<or> map f_name fs = [''lon'', ''lat''])"
proof
  assume a: "find (\<lambda>f. f_name f = ''lat'') fs \<noteq> None
      \<and> find (\<lambda>f. f_name f = ''lon'') fs \<noteq> None \<and> length fs = 2"
  then obtain x y where fs: "fs = [x, y]"
    by (cases fs; cases "tl fs"; cases "tl (tl fs)") auto
  from a have "''lat'' \<in> set (map f_name fs)" "''lon'' \<in> set (map f_name fs)"
    unfolding find_name_iff by blast+
  then have lat: "f_name x = ''lat'' \<or> f_name y = ''lat''"
    and lon: "f_name x = ''lon'' \<or> f_name y = ''lon''"
    unfolding fs by auto
  have ne: "''lat'' \<noteq> ''lon''" by simp
  from lat lon ne have "(f_name x = ''lat'' \<and> f_name y = ''lon'')
      \<or> (f_name x = ''lon'' \<and> f_name y = ''lat'')"
    by metis
  then show "map f_name fs = [''lat'', ''lon''] \<or> map f_name fs = [''lon'', ''lat'']"
    unfolding fs by auto
next
  assume "map f_name fs = [''lat'', ''lon''] \<or> map f_name fs = [''lon'', ''lat'']"
  then have "''lat'' \<in> set (map f_name fs) \<and> ''lon'' \<in> set (map f_name fs) \<and> length fs = 2"
    by (auto simp: map_eq_Cons_conv)
  then show "find (\<lambda>f. f_name f = ''lat'') fs \<noteq> None
      \<and> find (\<lambda>f. f_name f = ''lon'') fs \<noteq> None \<and> length fs = 2"
    unfolding find_name_iff by blast
qed

lemma resolve_field_Document:
  assumes "findBestProbabilityType (f_types s) = Best ty" and "t_name ty = ''Document''"
  shows "resolve_field s =
     (if map f_name (t_fields ty) = [''lat'', ''lon''] \<or> map f_name (t_fields ty) = [''lon'', ''lat'']
      then Some \<lparr>rf_name = f_name s, rf_type = ''GeoPoint'', rf_isArray = Some False\<rparr>
      else None)"
proof -
  have "resolve_field s =
     (if find (\<lambda>f. f_name f = ''lat'') (t_fields ty) \<noteq> None
          \<and> find (\<lambda>f. f_name f = ''lon'') (t_fields ty) \<noteq> None
          \<and> length (t_fields ty) = 2
      then Some \<lparr>rf_name = f_name s, rf_type = ''GeoPoint'', rf_isArray = Some False\<rparr>
      else None)"
    using assms by (simp add: resolve_field_def)
  then show ?thesis unfolding geo_shape_iff .
qed

lemma two_names_set:
  assumes "distinct xs" and "a \<noteq> b"
  shows "(xs = [a, b] \<or> xs = [b, a]) \<longleftrightarrow> set xs = {a, b}"
proof
  assume "xs = [a, b] \<or> xs = [b, a]"
  then show "set xs = {a, b}" by auto
next
  assume s: "set xs = {a, b}"
  have "length xs = card (set xs)" using assms(1) by (simp add: distinct_card)
  also have "\<dots> = 2" using s assms(2) by simp
  finally obtain x y where xs: "xs = [x, y]"
    by (cases xs; cases "tl xs"; cases "tl (tl xs)") auto
  from s have "{x, y} = {a, b}" unfolding xs by simp
  then have "(x = a \<and> y = b) \<or> (x = b \<and> y = a)" by (auto simp: doubleton_eq_iff)
  then show "xs = [a, b] \<or> xs = [b, a]" unfolding xs by auto
qed

text \<open>
  Claim C3.  For a field whose resolved type is a nested document, the entry that the
  Schema Compiler produces at the field's position is the geo-point field (with
  \<^verbatim>\<open>isArray\<close> false) when the nested fields are \<^verbatim>\<open>lat\<close> and \<^verbatim>\<open>lon\<close>, in either
  order and nothing else, and is \<^verbatim>\<open>null\<close> (no resolved field) for every other shape.
  With the names of the nested fields pairwise distinct, as the keys of an object are,
  that is: the entry is the geo-point field if and only if the set of the names is
  \<^verbatim>\<open>{lat, lon}\<close>.
\<close>

theorem getCollectionSchema_geo_point:
  assumes "i < length (schema_fields schema)"
    and "findBestProbabilityType (f_types (schema_fields schema ! i)) = Best ty"
    and "t_name ty = ''Document''"
  shows "cs_fields (getCollectionSchema c schema) ! i =
     (if map f_name (t_fields ty) = [''lat'', ''lon''] \<or> map f_name (t_fields ty) = [''lon'', ''lat'']
      then Some \<lparr>rf_name = f_name (schema_fields schema ! i), rf_type = ''GeoPoint'',
                  rf_isArray = Some False\<rparr>
      else None)
   \<and> (distinct (map f_name (t_fields ty)) \<longrightarrow>
        (cs_fields (getCollectionSchema c schema) ! i =
           Some \<lparr>rf_name = f_name (schema_fields schema ! i), rf_type = ''GeoPoint'',
                 rf_isArray = Some False\<rparr>
         \<longleftrightarrow> set (map f_name (t_fields ty)) = {''lat'', ''lon''}))"
proof (intro conjI impI)
  show eq: "cs_fields (getCollectionSchema c schema) ! i =
     (if map f_name (t_fields ty) = [''lat'', ''lon''] \<or> map f_name (t_fields ty) = [''lon'', ''lat'']
      then Some \<lparr>rf_name = f_name (schema_fields schema ! i), rf_type = ''GeoPoint'',
                  rf_isArray = Some False\<rparr>
      else None)"
    using assms by (simp add: getCollectionSchema_def resolve_field_Document)
  assume d: "distinct (map f_name (t_fields ty))"
  have ne: "''lat'' \<noteq> ''lon''" by simp
  show "cs_fields (getCollectionSchema c schema) ! i =
           Some \<lparr>rf_name = f_name (schema_fields schema ! i), rf_type = ''GeoPoint'',
                 rf_isArray = Some False\<rparr>
         \<longleftrightarrow> set (map f_name (t_fields ty)) = {''lat'', ''lon''}"
    unfolding eq two_names_set[OF d ne, symmetric] by simp
qed

text \<open>
  Two instances: \<^verbatim>\<open>{lon, lat}\<close> is a geo-point, \<^verbatim>\<open>{lat, lon, alt}\<close> is dropped.
\<close>

theorem getCollectionSchema_geo_point_witness:
  "cs_fields (getCollectionSchema \<lparr>collection_name = ''places''\<rparr>
      \<lparr>schema_fields =
         [FObs ''pos'' [TObs ''Document'' 1 []
            [FObs ''lon'' [TObs ''Number'' 1 [] []], FObs ''lat'' [TObs ''Number'' 1 [] []]]],
          FObs ''spot'' [TObs ''Document'' 1 []
            [FObs ''lat'' [TObs ''Number'' 1 [] []], FObs ''lon'' [TObs ''Number'' 1 [] []],
             FObs ''alt'' [TObs ''Number'' 1 [] []]]]]\<rparr>) ! 0
     = Some \<lparr>rf_name = ''pos'', rf_type = ''GeoPoint'', rf_isArray = Some False\<rparr>
   \<and> cs_fields (getCollectionSchema \<lparr>collection_name = ''places''\<rparr>
      \<lparr>schema_fields =
         [FObs ''pos'' [TObs ''Document'' 1 []
            [FObs ''lon'' [TObs ''Number'' 1 [] []], FObs ''lat'' [TObs ''Number'' 1 [] []]]],
          FObs ''spot'' [TObs ''Document'' 1 []
            [FObs ''lat'' [TObs ''Number'' 1 [] []], FObs ''lon'' [TObs ''Number'' 1 [] []],
             FObs ''alt'' [TObs ''Number'' 1 [] []]]]]\<rparr>) ! 1
     = None"
proof -
  let ?n = "[TObs ''Number'' 1 [] []]"
  let ?d0 = "TObs ''Document'' 1 [] [FObs ''lon'' ?n, FObs ''lat'' ?n]"
  let ?d1 = "TObs ''Document'' 1 [] [FObs ''lat'' ?n, FObs ''lon'' ?n, FObs ''alt'' ?n]"
  let ?s = "\<lparr>schema_fields = [FObs ''pos'' [?d0], FObs ''spot'' [?d1]]\<rparr>"
  have b0: "findBestProbabilityType (f_types (schema_fields ?s ! 0)) = Best ?d0"
    by (simp add: findBestProbabilityType_def)
  have b1: "findBestProbabilityType (f_types (schema_fields ?s ! 1)) = Best ?d1"
    by (simp add: findBestProbabilityType_def)
  have "cs_fields (getCollectionSchema \<lparr>collection_name = ''places''\<rparr> ?s) ! 0
      = Some \<lparr>rf_name = ''pos'', rf_type = ''GeoPoint'', rf_isArray = Some False\<rparr>"
    using getCollectionSchema_geo_point[of 0 ?s ?d0, OF _ b0, THEN conjunct1] by simp
  moreover have "cs_fields (getCollectionSchema \<lparr>collection_name = ''places''\<rparr> ?s) ! 1 = None"
    using getCollectionSchema_geo_point[of 1 ?s ?d1, OF _ b1, THEN conjunct1] by simp
  ultimately show ?thesis by blast
qed

lemma resolve_field_name: "resolve_field s = Some f \<Longrightarrow> rf_name f = f_name s"
  by (auto simp: resolve_field_def split: best_type.splits if_splits)

lemma resolve_field_None_iff:
  "resolve_field s = None \<longleftrightarrow>
     (\<exists>ty. findBestProbabilityType (f_types s) = Best ty \<and> t_name ty = ''Document''
        \<and> \<not> (map f_name (t_fields ty) = [''lat'', ''lon'']
              \<or> map f_name (t_fields ty) = [''lon'', ''lat'']))"
proof (cases "findBestProbabilityType (f_types s)")
  case StringDefault
  then show ?thesis by (simp add: resolve_field_def)
next
  case (Best ty)
  show ?thesis
  proof (cases "t_name ty = ''Document''")
    case True
    then show ?thesis using Best resolve_field_Document[OF Best True] by simp
  next
    case False
    then show ?thesis using Best by (simp add: resolve_field_def)
  qed
qed

lemma nonnull_map_names:
  "map rf_name [f. Some f \<leftarrow> map resolve_field ss]
     = map f_name (filter (\<lambda>s. resolve_field s \<noteq> None) ss)"
  by (induction ss) (auto simp: resolve_field_name split: option.splits)

lemma nonnull_filter: "[f. Some f \<leftarrow> filter (\<lambda>f. f \<noteq> None) xs] = [f. Some f \<leftarrow> xs]"
  by (induction xs) (auto split: option.splits)

text \<open>
  Claim C7, against the code: the list of fields that the Schema Compiler returns keeps a
  \<^verbatim>\<open>null\<close> for a dropped field.  Here the second field is a nested document that is
  not a geo-point.
\<close>

theorem getCollectionSchema_keeps_null:
  "cs_fields (getCollectionSchema \<lparr>collection_name = ''places''\<rparr>
      \<lparr>schema_fields =
         [FObs ''name'' [TObs ''String'' 1 [] []],
          FObs ''spot'' [TObs ''Document'' 1 []
            [FObs ''lat'' [TObs ''Number'' 1 [] []], FObs ''lon'' [TObs ''Number'' 1 [] []],
             FObs ''alt'' [TObs ''Number'' 1 [] []]]]]\<rparr>)
     = [Some \<lparr>rf_name = ''name'', rf_type = ''String'', rf_isArray = None\<rparr>, None]"
  by (simp add: getCollectionSchema_def resolve_field_def findBestProbabilityType_def)

text \<open>
  Claim C7, as the code has it.  The list of fields has one entry for every input field,
  at the same position: \<^verbatim>\<open>null\<close> exactly for a field resolved to a nested document
  that is not a geo-point, and a resolved field of the same name otherwise.  The entries
  that are not \<^verbatim>\<open>null\<close> are the surviving fields in the order of the input.  The nulls
  are removed by the Mapping Compiler, whose result does not depend on them.
\<close>

theorem getCollectionSchema_fields_positions:
  "length (cs_fields (getCollectionSchema c schema)) = length (schema_fields schema)
   \<and> (\<forall>i<length (schema_fields schema).
        (cs_fields (getCollectionSchema c schema) ! i = None \<longleftrightarrow>
           (\<exists>ty. findBestProbabilityType (f_types (schema_fields schema ! i)) = Best ty
              \<and> t_name ty = ''Document''
              \<and> \<not> (map f_name (t_fields ty) = [''lat'', ''lon'']
                    \<or> map f_name (t_fields ty) = [''lon'', ''lat''])))
        \<and> (\<forall>f. cs_fields (getCollectionSchema c schema) ! i = Some f \<longrightarrow>
              rf_name f = f_name (schema_fields schema ! i)))
   \<and> map rf_name [f. Some f \<leftarrow> cs_fields (getCollectionSchema c schema)]
       = map f_name (filter (\<lambda>s. resolve_field s \<noteq> None) (schema_fields schema))
   \<and> getMapping sing (getCollectionSchema c schema) flag
       = getMapping sing
           \<lparr>cs_name = collection_name c,
            cs_fields = filter (\<lambda>f. f \<noteq> None) (cs_fields (getCollectionSchema c schema))\<rparr> flag"
proof (intro conjI allI impI)
  show "length (cs_fields (getCollectionSchema c schema)) = length (schema_fields schema)"
    by (simp add: getCollectionSchema_def)
next
  fix i assume "i < length (schema_fields schema)"
  then have "cs_fields (getCollectionSchema c schema) ! i = resolve_field (schema_fields schema ! i)"
    by (simp add: getCollectionSchema_def)
  then show "cs_fields (getCollectionSchema c schema) ! i = None \<longleftrightarrow>
           (\<exists>ty. findBestProbabilityType (f_types (schema_fields schema ! i)) = Best ty
              \<and> t_name ty = ''Document''
              \<and> \<not> (map f_name (t_fields ty) = [''lat'', ''lon'']
                    \<or> map f_name (t_fields ty) = [''lon'', ''lat'']))"
    by (simp only: resolve_field_None_iff)
next
  fix i f assume "i < length (schema_fields schema)"
    and "cs_fields (getCollectionSchema c schema) ! i = Some f"
  then show "rf_name f = f_name (schema_fields schema ! i)"
    by (simp add: getCollectionSchema_def resolve_field_name)
next
  show "map rf_name [f. Some f \<leftarrow> cs_fields (getCollectionSchema c schema)]
       = map f_name (filter (\<lambda>s. resolve_field s \<noteq> None) (schema_fields schema))"
    by (simp only: getCollectionSchema_def collection_schema.simps nonnull_map_names)
next
  show "getMapping sing (getCollectionSchema c schema) flag
       = getMapping sing
           \<lparr>cs_name = collection_name c,
            cs_fields = filter (\<lambda>f. f \<noteq> None) (cs_fields (getCollectionSchema c schema))\<rparr> flag"
    by (simp only: getMapping_def getCollectionSchema_def collection_schema.select_convs
        nonnull_filter)
qed


text \<open>
  An instance: of a string field and a nested document with three keys, the second
  leaves a \<^verbatim>\<open>null\<close> at its position and only the first survives.
\<close>

theorem getCollectionSchema_fields_positions_witness:
  "cs_fields (getCollectionSchema \<lparr>collection_name = ''places''\<rparr>
      \<lparr>schema_fields =
         [FObs ''name'' [TObs ''String'' 1 [] []],
          FObs ''spot'' [TObs ''Document'' 1 []
            [FObs ''lat'' [TObs ''Number'' 1 [] []], FObs ''lon'' [TObs ''Number'' 1 [] []],
             FObs ''alt'' [TObs ''Number'' 1 [] []]]]]\<rparr>) ! 1 = None
   \<and> map rf_name [f. Some f \<leftarrow> cs_fields (getCollectionSchema \<lparr>collection_name = ''places''\<rparr>
      \<lparr>schema_fields =
         [FObs ''name'' [TObs ''String'' 1 [] []],
          FObs ''spot'' [TObs ''Document'' 1 []
            [FObs ''lat'' [TObs ''Number'' 1 [] []], FObs ''lon'' [TObs ''Number'' 1 [] []],
             FObs ''alt'' [TObs ''Number'' 1 [] []]]]]\<rparr>)] = [''name'']"
proof -
  let ?n = "[TObs ''Number'' 1 [] []]"
  let ?d = "TObs ''Document'' 1 [] [FObs ''lat'' ?n, FObs ''lon'' ?n, FObs ''alt'' ?n]"
  let ?s = "\<lparr>schema_fields = [FObs ''name'' [TObs ''String'' 1 [] []], FObs ''spot'' [?d]]\<rparr>"
  let ?c = "\<lparr>collection_name = ''places''\<rparr>"
  note t = getCollectionSchema_fields_positions[of ?c ?s id None]
  have i: "(1::nat) < length (schema_fields ?s)" by simp
  have "findBestProbabilityType (f_types (schema_fields ?s ! 1)) = Best ?d \<and> t_name ?d = ''Document''
      \<and> \<not> (map f_name (t_fields ?d) = [''lat'', ''lon''] \<or> map f_name (t_fields ?d) = [''lon'', ''lat''])"
    by (simp add: findBestProbabilityType_def)
  then have "\<exists>ty. findBestProbabilityType (f_types (schema_fields ?s ! 1)) = Best ty
      \<and> t_name ty = ''Document''
      \<and> \<not> (map f_name (t_fields ty) = [''lat'', ''lon''] \<or> map f_name (t_fields ty) = [''lon'', ''lat''])"
    by (rule exI[where x = "?d"])
  then have a: "cs_fields (getCollectionSchema ?c ?s) ! 1 = None"
    by (rule t[THEN conjunct2, THEN conjunct1, THEN spec, THEN mp, OF i, THEN conjunct1,
          THEN iffD2])
  have "map f_name (filter (\<lambda>s. resolve_field s \<noteq> None) (schema_fields ?s)) = [''name'']"
    by (simp add: resolve_field_def findBestProbabilityType_def)
  then have b: "map rf_name [f. Some f \<leftarrow> cs_fields (getCollectionSchema ?c ?s)] = [''name'']"
    by (rule trans[OF t[THEN conjunct2, THEN conjunct2, THEN conjunct1]])
  from a b show ?thesis by (rule conjI)
qed

section \<open>Type names outside the table\<close>

lemma getMapping_properties_origin:
  assumes "im_properties (getMapping sing cs flag) n = Some p"
  shows "\<exists>f. Some f \<in> set (cs_fields cs) \<and> rf_name f = n
            \<and> spec_property_table (rf_type f) = Some p"
proof -
  let ?fs = "filter (\<lambda>f. rf_name f \<notin> set exclude) [f. Some f \<leftarrow> cs_fields cs]"
  from assms have "fold mapping_step ?fs Map.empty n = Some p"
    by (simp add: getMapping_def)
  from fold_mapping_step_origin[OF this]
  obtain f where "f \<in> set ?fs" "rf_name f = n" "spec_property_table (rf_type f) = Some p"
    by auto
  then show ?thesis using set_nonnull by auto
qed

text \<open>
  Claim C6, against the code: there is no \<^verbatim>\<open>Unknown\<close> tag.  A field whose winning
  observation is named \<^verbatim>\<open>ObjectID\<close> is resolved to the type \<^verbatim>\<open>ObjectID\<close>.
\<close>

theorem resolve_field_no_Unknown_tag:
  "cs_fields (getCollectionSchema \<lparr>collection_name = ''users''\<rparr>
      \<lparr>schema_fields = [FObs ''owner'' [TObs ''ObjectID'' 1 [] []]]\<rparr>)
     = [Some \<lparr>rf_name = ''owner'', rf_type = ''ObjectID'', rf_isArray = None\<rparr>]
   \<and> cs_fields (getCollectionSchema \<lparr>collection_name = ''users''\<rparr>
      \<lparr>schema_fields = [FObs ''owner'' [TObs ''ObjectID'' 1 [] []]]\<rparr>)
     \<noteq> [Some \<lparr>rf_name = ''owner'', rf_type = ''Unknown'', rf_isArray = None\<rparr>]"
  by (simp add: getCollectionSchema_def resolve_field_def findBestProbabilityType_def)

text \<open>
  Claim C6, as the code has it.  When the winning observation of a field has a type name
  that is neither one of the five of the table nor \<^verbatim>\<open>Array\<close> nor \<^verbatim>\<open>Document\<close>, the
  resolved field carries that very name as its type.  The Mapping Compiler then has no
  property under the name of such a field (when no other field of the schema shares the
  name), and it returns a mapping as for any other schema: nothing is raised.
\<close>

theorem unrecognized_type_kept_then_omitted:
  assumes "findBestProbabilityType (f_types s) = Best ty"
    and "t_name ty \<notin> set [''String'', ''Number'', ''Boolean'', ''Date'', ''GeoPoint'',
                           ''Array'', ''Document'']"
  shows "resolve_field s = Some \<lparr>rf_name = f_name s, rf_type = t_name ty, rf_isArray = None\<rparr>
     \<and> (s \<in> set (schema_fields schema)
          \<and> (\<forall>s'\<in>set (schema_fields schema). f_name s' = f_name s \<longrightarrow> s' = s) \<longrightarrow>
        im_properties (getMapping sing (getCollectionSchema c schema) flag) (f_name s) = None)"
proof (intro conjI impI)
  show r: "resolve_field s = Some \<lparr>rf_name = f_name s, rf_type = t_name ty, rf_isArray = None\<rparr>"
    using assms by (simp add: resolve_field_def)
  assume u: "s \<in> set (schema_fields schema)
          \<and> (\<forall>s'\<in>set (schema_fields schema). f_name s' = f_name s \<longrightarrow> s' = s)"
  have none: "spec_property_table (t_name ty) = None"
    using assms(2) by (simp add: spec_property_table_def)
  show "im_properties (getMapping sing (getCollectionSchema c schema) flag) (f_name s) = None"
  proof (rule ccontr)
    assume "im_properties (getMapping sing (getCollectionSchema c schema) flag) (f_name s) \<noteq> None"
    then obtain p
      where "im_properties (getMapping sing (getCollectionSchema c schema) flag) (f_name s) = Some p"
      by blast
    from getMapping_properties_origin[OF this]
    obtain f where f: "Some f \<in> set (cs_fields (getCollectionSchema c schema))"
      "rf_name f = f_name s" "spec_property_table (rf_type f) = Some p"
      by blast
    from f(1) obtain s' where s': "s' \<in> set (schema_fields schema)" "resolve_field s' = Some f"
      by (auto simp: getCollectionSchema_def)
    from resolve_field_name[OF s'(2)] f(2) have "f_name s' = f_name s" by simp
    with u s'(1) have "s' = s" by blast
    with s'(2) r have "f = \<lparr>rf_name = f_name s, rf_type = t_name ty, rf_isArray = None\<rparr>"
      by simp
    then have "rf_type f = t_name ty" by simp
    with f(3) none show False by simp
  qed
qed

text \<open>
  An instance: a reference next to a string; the reference keeps its type name and has no
  property, the mapping is built all the same.
\<close>

theorem unrecognized_type_kept_then_omitted_witness:
  "resolve_field (FObs ''owner'' [TObs ''ObjectID'' 1 [] []])
     = Some \<lparr>rf_name = ''owner'', rf_type = ''ObjectID'', rf_isArray = None\<rparr>
   \<and> im_properties (getMapping id (getCollectionSchema \<lparr>collection_name = ''users''\<rparr>
        \<lparr>schema_fields = [FObs ''name'' [TObs ''String'' 1 [] []],
                          FObs ''owner'' [TObs ''ObjectID'' 1 [] []]]\<rparr>) None) ''owner'' = None"
proof -
  let ?s = "FObs ''owner'' [TObs ''ObjectID'' 1 [] []]"
  let ?schema = "\<lparr>schema_fields = [FObs ''name'' [TObs ''String'' 1 [] []], ?s]\<rparr>"
  have b: "findBestProbabilityType (f_types ?s) = Best (TObs ''ObjectID'' 1 [] [])"
    by (simp add: findBestProbabilityType_def)
  have n: "t_name (TObs ''ObjectID'' 1 [] []) \<notin> set [''String'', ''Number'', ''Boolean'', ''Date'',
      ''GeoPoint'', ''Array'', ''Document'']"
    by simp
  have u: "?s \<in> set (schema_fields ?schema)
      \<and> (\<forall>s'\<in>set (schema_fields ?schema). f_name s' = f_name ?s \<longrightarrow> s' = ?s)"
    by simp
  note t = unrecognized_type_kept_then_omitted[OF b n, of ?schema id "\<lparr>collection_name = ''users''\<rparr>" None]
  have r: "resolve_field ?s = Some \<lparr>rf_name = ''owner'', rf_type = ''ObjectID'', rf_isArray = None\<rparr>"
    using t[THEN conjunct1] by simp
  have "im_properties (getMapping id (getCollectionSchema \<lparr>collection_name = ''users''\<rparr> ?schema) None)
      (f_name ?s) = None"
    by (rule t[THEN conjunct2, THEN mp, OF u])
  then have m: "im_properties (getMapping id (getCollectionSchema \<lparr>collection_name = ''users''\<rparr> ?schema) None)
      ''owner'' = None"
    by simp
  from r m show ?thesis by (rule conjI)
qed

section \<open>Properties of the Document Normalizer\<close>

lemma snd_result_assign:
  "snd (result_assign result key w) =
     snd result @ (if key = ''__proto__'' then [] else [(key, w)])"
  by (cases result) (simp split: jsval.splits)

lemma fst_result_assign_other:
  "key \<noteq> ''__proto__'' \<Longrightarrow> fst (result_assign result key w) = fst result"
  by (cases result) simp




lemma valid_dates_value_object:
  "valid_dates_value (JObject k obj) = (if instanceof_Object k then valid_dates obj else True)"
  by (cases k) (simp_all add: instanceof_Object_def)

lemma ordinary_keys_value_object:
  "ordinary_keys_value (JObject k obj) = (if instanceof_Object k then ordinary_keys obj else True)"
  by (cases k) (simp_all add: instanceof_Object_def)

lemma normalized_value_object:
  "normalized_value toISO (JObject k obj) =
     (if instanceof_Object k then JObject Plain (normalized toISO obj) else JObject k obj)"
  by (cases k) (simp_all add: instanceof_Object_def)



lemma serialize_normalized:
  "valid_dates data \<and> ordinary_keys data \<longrightarrow>
     serialize_loop toISO result data
       = Inr (JObject (fst result) (snd result @ normalized toISO data))"
  "valid_dates_value v \<and> ordinary_keys_value v \<longrightarrow>
     serialize_value toISO v = Inr (normalized_value toISO v)"
proof (induction toISO result data and toISO v rule: serialize_loop_serialize_value.induct)
  case (2 toISO result key v data)
  show ?case
  proof
    assume a: "valid_dates ((key, v) # data) \<and> ordinary_keys ((key, v) # data)"
    then have key: "key \<noteq> ''__proto__''" by simp
    from a "2.IH"(1) have b: "serialize_value toISO v = Inr (normalized_value toISO v)" by simp
    from a "2.IH"(2)[OF b]
    have "serialize_loop toISO (result_assign result key (normalized_value toISO v)) data
       = Inr (JObject (fst (result_assign result key (normalized_value toISO v)))
               (snd (result_assign result key (normalized_value toISO v)) @ normalized toISO data))"
      by simp
    then show "serialize_loop toISO result ((key, v) # data)
       = Inr (JObject (fst result) (snd result @ normalized toISO ((key, v) # data)))"
      using b key by (simp add: snd_result_assign fst_result_assign_other)
  qed
qed (auto simp: call_toISOString_def valid_dates_value_object ordinary_keys_value_object
    normalized_value_object)

lemma normalized_keys: "map fst (normalized toISO d) = map fst d"
  by (induction d) auto

text \<open>
  Two cases outside those trees, as the code has them: a date without a time value
  stops \<^verbatim>\<open>serialize\<close> with a \<^verbatim>\<open>RangeError\<close>, and an own key \<^verbatim>\<open>__proto__\<close> is
  not a key of the result.
\<close>

lemma serialize_invalid_date_throws:
  "serialize toISO [(''name'', JString ''Ann''), (''when'', JDate None)] = Inl RangeError"
  by (simp add: serialize_def call_toISOString_def)

lemma serialize_proto_key_lost:
  "serialize toISO [(''__proto__'', JString ''x''), (''name'', JString ''Ann'')]
     = Inr (JObject Plain [(''name'', JString ''Ann'')])"
  by (simp add: serialize_def)

text \<open>
  Claim C4, against the code.  The test for a nested object is \<^verbatim>\<open>instanceof Object\<close>.
  So a value that is the instance of a class, here an \<^verbatim>\<open>ObjectID\<close>, is neither passed
  through unchanged nor a plain nested object: it comes out as the plain object of its
  own properties.  And an object that is not an instance of \<^verbatim>\<open>Object\<close> is passed
  through with the date in it left a date.
\<close>

theorem serialize_instance_rewritten_bare_skipped:
  "serialize (toISOString demo_env)
     [(''owner'', JObject (Instance ''ObjectID'')
                    [(''_bsontype'', JString ''ObjectID''), (''id'', JString ''5f1d'')])]
   = Inr (JObject Plain
     [(''owner'', JObject Plain
                    [(''_bsontype'', JString ''ObjectID''), (''id'', JString ''5f1d'')])])
   \<and> serialize (toISOString demo_env) [(''meta'', JObject Bare [(''seen'', JDate (Some 0))])]
   = Inr (JObject Plain [(''meta'', JObject Bare [(''seen'', JDate (Some 0))])])"
  by (simp add: serialize_def instanceof_Object_def)

text \<open>
  Claim C4, as the code has it.  For every tree in which the dates that \<^verbatim>\<open>serialize\<close>
  comes to have a time value and the objects that it comes to have no own key
  \<^verbatim>\<open>__proto__\<close>, \<^verbatim>\<open>serialize\<close> returns a plain object with the same keys in the same
  order, holding the normal form of the tree: every date replaced by the text of
  \<^verbatim>\<open>toISOString\<close>, every array as it is (the dates in it too), every nested object that
  is an instance of \<^verbatim>\<open>Object\<close>, plain or of a class, replaced by the plain object of
  its own properties normalized by the same rules, and every other value, an object that
  is no instance of \<^verbatim>\<open>Object\<close> too, as it is.
\<close>

theorem serialize_normalizes:
  assumes "valid_dates d" and "ordinary_keys d"
  shows "serialize toISO d = Inr (JObject Plain (normalized toISO d))
       \<and> map fst (normalized toISO d) = map fst d"
  using assms serialize_normalized(1)[of d toISO "(Plain, [])"]
  by (simp add: serialize_def normalized_keys)

text \<open>
  An instance: the date at the top and the one in the nested object are rewritten, the one
  inside the array is not; the reference comes out as a plain object.
\<close>

theorem serialize_normalizes_witness:
  "serialize (toISOString demo_env)
     [(''name'', JString ''Ann''),
      (''signup'', JDate (Some 0)),
      (''visits'', JArray [JDate (Some 0), JNumber 3]),
      (''meta'', JObject Plain [(''seen'', JDate (Some 0)), (''ok'', JBool True)]),
      (''owner'', JObject (Instance ''ObjectID'') [(''id'', JString ''5f1d'')])]
   = Inr (JObject Plain
     [(''name'', JString ''Ann''),
      (''signup'', JString ''1970-01-01T00:00:00.000Z''),
      (''visits'', JArray [JDate (Some 0), JNumber 3]),
      (''meta'', JObject Plain
                   [(''seen'', JString ''1970-01-01T00:00:00.000Z''), (''ok'', JBool True)]),
      (''owner'', JObject Plain [(''id'', JString ''5f1d'')])])"
proof -
  let ?d = "[(''name'', JString ''Ann''),
      (''signup'', JDate (Some 0)),
      (''visits'', JArray [JDate (Some 0), JNumber 3]),
      (''meta'', JObject Plain [(''seen'', JDate (Some 0)), (''ok'', JBool True)]),
      (''owner'', JObject (Instance ''ObjectID'') [(''id'', JString ''5f1d'')])]"
  have v: "valid_dates ?d" by (simp add: instanceof_Object_def)
  have k: "ordinary_keys ?d" by (simp add: instanceof_Object_def)
  from serialize_normalizes[OF v k, of "toISOString demo_env", THEN conjunct1]
  show ?thesis by (simp add: instanceof_Object_def demo_env_def)
qed



section \<open>Properties of the loop over the collections\<close>

lemma build_bulk_index:
  "build_bulk e flag name docs = Inr bulk \<Longrightarrow> IndexAction a \<in> set bulk \<Longrightarrow>
     a_index a = (if flag_set flag then singular e name else name)"
proof (induction docs arbitrary: bulk)
  case Nil
  then show ?case by simp
next
  case (Cons doc docs)
  from Cons.prems(1) obtain i r rest where
    rest: "build_bulk e flag name docs = Inr rest"
    and bulk: "bulk = IndexAction \<lparr>a_index = (if flag_set flag then singular e name else name),
                                   a_type = ''_doc'', a_id = i\<rparr>
                 # Payload (spread r) # rest"
    by (auto split: sum.splits)
  from Cons.prems(2) bulk consider
    "a = \<lparr>a_index = (if flag_set flag then singular e name else name), a_type = ''_doc'', a_id = i\<rparr>"
    | "IndexAction a \<in> set rest"
    by auto
  then show ?case
  proof cases
    case 1
    then show ?thesis by simp
  next
    case 2
    then show ?thesis using Cons.IH[OF rest] by blast
  qed
qed

lemma build_bulk_empty_iff:
  "build_bulk e flag name docs = Inr bulk \<Longrightarrow> bulk = [] \<longleftrightarrow> docs = []"
  by (cases docs) (auto split: sum.splits)

lemma fetch_collection_events:
  "fetch_collection e tr name = (tr', docs) \<Longrightarrow>
     tr' = tr @ [Log_Syncing name, Db_EstimatedDocumentCount name,
                 Log_EstimatedCount (estimatedDocumentCount e (tr @ [Log_Syncing name]) name),
                 Db_Find name]"
  by (auto simp: fetch_collection_def Let_def)

lemma sync_collection_events:
  assumes "fetch_collection e tr (cs_name c) = (tr', docs)"
  shows "fst (sync_collection e flag tr c) =
     tr' @ (case build_bulk e flag (cs_name c) docs of
              Inl err \<Rightarrow> []
            | Inr bulk \<Rightarrow> if docs = [] then [] else [Es_Bulk bulk])"
  using assms build_bulk_empty_iff[of e flag "cs_name c" docs]
  by (auto simp: sync_collection_def Let_def split: sum.splits)

lemma sync_collections_append:
  "sync_collections e flag tr (pre @ cs) =
     (case sync_collections e flag tr pre of
        (tr', Inl err) \<Rightarrow> (tr', Inl err)
      | (tr', Inr u) \<Rightarrow> sync_collections e flag tr' cs)"
  by (induction pre arbitrary: tr) (auto split: prod.splits sum.splits)

lemma sync_collection_bulk_sent:
  assumes "fetch_collection e tr (cs_name c) = (tr', docs)"
    and "Es_Bulk b \<in> set (drop (length tr) (fst (sync_collection e flag tr c)))"
  shows "docs \<noteq> [] \<and> build_bulk e flag (cs_name c) docs = Inr b"
proof -
  have tr': "tr' = tr @ [Log_Syncing (cs_name c), Db_EstimatedDocumentCount (cs_name c),
                 Log_EstimatedCount (estimatedDocumentCount e (tr @ [Log_Syncing (cs_name c)]) (cs_name c)),
                 Db_Find (cs_name c)]"
    using fetch_collection_events[OF assms(1)] .
  show ?thesis
    using assms(2) unfolding sync_collection_events[OF assms(1)] tr'
    by (auto split: sum.splits if_splits)
qed


text \<open>
  Claim C8.  The index name of the compiled mapping is the collection name, or its
  singular form when the flag is set; and every action descriptor of a bulk body, as
  built for the collection and as sent in its turn of the loop, has that same name as its
  target index.
\<close>

theorem index_name_consistent:
  "im_index (getMapping (singular e) c flag)
     = (if flag = Some True then singular e (cs_name c) else cs_name c)
   \<and> (\<forall>bulk a. build_bulk e flag (cs_name c) docs = Inr bulk \<and> IndexAction a \<in> set bulk \<longrightarrow>
         a_index a = (if flag = Some True then singular e (cs_name c) else cs_name c))
   \<and> (\<forall>b a. Es_Bulk b \<in> set (drop (length tr) (fst (sync_collection e flag tr c)))
            \<and> IndexAction a \<in> set b \<longrightarrow>
         a_index a = im_index (getMapping (singular e) c flag))"
proof (intro conjI allI impI)
  show ix: "im_index (getMapping (singular e) c flag)
     = (if flag = Some True then singular e (cs_name c) else cs_name c)"
    by (simp add: getMapping_def flag_set_def)
  {
    fix bulk a
    assume "build_bulk e flag (cs_name c) docs = Inr bulk \<and> IndexAction a \<in> set bulk"
    then show "a_index a = (if flag = Some True then singular e (cs_name c) else cs_name c)"
      using build_bulk_index[of e flag "cs_name c" docs bulk a] by (simp add: flag_set_def)
  }
  {
    fix b a
    assume h: "Es_Bulk b \<in> set (drop (length tr) (fst (sync_collection e flag tr c)))
            \<and> IndexAction a \<in> set b"
    obtain tr' ds where f: "fetch_collection e tr (cs_name c) = (tr', ds)"
      by (cases "fetch_collection e tr (cs_name c)")
    from sync_collection_bulk_sent[OF f] h have "build_bulk e flag (cs_name c) ds = Inr b"
      by blast
    from build_bulk_index[OF this] h
    have "a_index a = (if flag_set flag then singular e (cs_name c) else cs_name c)" by blast
    then show "a_index a = im_index (getMapping (singular e) c flag)"
      unfolding ix by (simp add: flag_set_def)
  }
qed

text \<open>
  An instance: with the flag set, the mapping of \<^verbatim>\<open>users\<close> and the action descriptor
  sent for its one document both name the index \<^verbatim>\<open>user\<close>.
\<close>

theorem index_name_consistent_witness:
  "Es_Bulk
      [IndexAction \<lparr>a_index = ''user'', a_type = ''_doc'', a_id = ''1''\<rparr>,
       Payload [(''name'', JString ''Ann''), (''signup'', JString ''1970-01-01T00:00:00.000Z'')]]
     \<in> set (drop (length ([] :: event list))
              (fst (sync_collection demo_env (Some True) [] (demo_schema ''users''))))
   \<and> IndexAction \<lparr>a_index = ''user'', a_type = ''_doc'', a_id = ''1''\<rparr>
     \<in> set [IndexAction \<lparr>a_index = ''user'', a_type = ''_doc'', a_id = ''1''\<rparr>,
       Payload [(''name'', JString ''Ann''), (''signup'', JString ''1970-01-01T00:00:00.000Z'')]]
   \<and> a_index \<lparr>a_index = ''user'', a_type = ''_doc'', a_id = ''1''\<rparr>
     = im_index (getMapping (singular demo_env) (demo_schema ''users'') (Some True))
   \<and> im_index (getMapping (singular demo_env) (demo_schema ''users'') (Some True)) = ''user''"
proof -
  let ?a = "\<lparr>a_index = ''user'', a_type = ''_doc'', a_id = ''1''\<rparr>"
  let ?b = "[IndexAction \<lparr>a_index = ''user'', a_type = ''_doc'', a_id = ''1''\<rparr>,
       Payload [(''name'', JString ''Ann''), (''signup'', JString ''1970-01-01T00:00:00.000Z'')]]"
  note t = index_name_consistent[of demo_env "demo_schema ''users''" "Some True" "[]" "[]"]
  have h1: "Es_Bulk ?b \<in> set (drop (length ([] :: event list))
              (fst (sync_collection demo_env (Some True) [] (demo_schema ''users''))))"
    by (simp add: sync_collection_def fetch_collection_def demo_env_def demo_schema_def Let_def
        get_property_def call_toString_def rest_data_def flag_set_def serialize_def spread_def
        call_toISOString_def instanceof_Object_def)
  have h2: "IndexAction ?a \<in> set ?b" by simp
  have c: "a_index ?a = im_index (getMapping (singular demo_env) (demo_schema ''users'') (Some True))"
    by (rule t[THEN conjunct2, THEN conjunct2, THEN spec, THEN spec, THEN mp, OF conjI[OF h1 h2]])
  have ix: "im_index (getMapping (singular demo_env) (demo_schema ''users'') (Some True)) = ''user''"
    using t[THEN conjunct1] by (simp add: demo_env_def demo_schema_def)
  from h1 h2 c ix show ?thesis by blast
qed

text \<open>
  Claim C9.  Take a collection that the loop reaches (the ones before it went through),
  with at least one document and a bulk body built for them.  When the \<^verbatim>\<open>error\<close> of
  the answer to its bulk request is true in JavaScript's sense (a non-empty text, say),
  the loop stops there with the error message that names the collection, and the bulk
  request is the last thing it did: nothing happens for the collections after it.  When
  the answer has no \<^verbatim>\<open>error\<close>, the loop goes on with the collections after it.
\<close>

theorem bulk_error_halts:
  assumes "sync_collections e flag tr0 pre = (tr, Inr ())"
    and "fetch_collection e tr (cs_name c) = (tr', docs)"
    and "docs \<noteq> []"
    and "build_bulk e flag (cs_name c) docs = Inr bulk"
  shows "(truthy (res_error (es_bulk e tr' bulk)) \<longrightarrow>
            sync_collections e flag tr0 (pre @ c # rest) =
              (tr' @ [Es_Bulk bulk],
               Inl (CLIError (''Error syncing '' @ cs_name c @ '': ''
                              @ js_toString e (res_error (es_bulk e tr' bulk))))))
       \<and> (res_error (es_bulk e tr' bulk) = JUndefined \<longrightarrow>
            sync_collections e flag tr0 (pre @ c # rest) =
              sync_collections e flag (tr' @ [Es_Bulk bulk]) rest)"
proof -
  have ne: "bulk \<noteq> []" using build_bulk_empty_iff[OF assms(4)] assms(3) by simp
  have step: "sync_collections e flag tr0 (pre @ c # rest) = sync_collections e flag tr (c # rest)"
    by (simp add: sync_collections_append assms(1))
  have turn: "sync_collection e flag tr c =
      (if truthy (res_error (es_bulk e tr' bulk))
       then (tr' @ [Es_Bulk bulk],
             Inl (CLIError (''Error syncing '' @ cs_name c @ '': ''
                            @ js_toString e (res_error (es_bulk e tr' bulk)))))
       else (tr' @ [Es_Bulk bulk], Inr ()))"
    using ne by (simp add: sync_collection_def assms(2) assms(4) Let_def)
  show ?thesis unfolding step by (auto simp: turn)
qed

text \<open>
  An instance: \<^verbatim>\<open>users\<close> goes through, the request for \<^verbatim>\<open>orders\<close> is answered with
  an error, and \<^verbatim>\<open>logs\<close> is never looked at.
\<close>

theorem bulk_error_halts_witness:
  "sync_collections demo_env None []
     ([demo_schema ''users''] @ demo_schema ''orders'' # [demo_schema ''logs''])
   = ([Log_Syncing ''users'', Db_EstimatedDocumentCount ''users'', Log_EstimatedCount 1,
       Db_Find ''users'', Es_Bulk [IndexAction \<lparr>a_index = ''users'', a_type = ''_doc'', a_id = ''1''\<rparr>,
       Payload [(''name'', JString ''Ann''), (''signup'', JString ''1970-01-01T00:00:00.000Z'')]],
       Log_Syncing ''orders'', Db_EstimatedDocumentCount ''orders'', Log_EstimatedCount 1,
       Db_Find ''orders'']
      @ [Es_Bulk [IndexAction \<lparr>a_index = ''orders'', a_type = ''_doc'', a_id = ''1''\<rparr>,
       Payload [(''name'', JString ''Ann''), (''signup'', JString ''1970-01-01T00:00:00.000Z'')]]],
      Inl (CLIError ''Error syncing orders: boom''))
   \<and> sync_collections demo_env None [] ([] @ demo_schema ''users'' # [demo_schema ''logs''])
   = sync_collections demo_env None
       ([Log_Syncing ''users'', Db_EstimatedDocumentCount ''users'', Log_EstimatedCount 1,
         Db_Find ''users''] @ [Es_Bulk [IndexAction \<lparr>a_index = ''users'', a_type = ''_doc'', a_id = ''1''\<rparr>,
       Payload [(''name'', JString ''Ann''), (''signup'', JString ''1970-01-01T00:00:00.000Z'')]]])
       [demo_schema ''logs'']"
proof -
  let ?tr = "[Log_Syncing ''users'', Db_EstimatedDocumentCount ''users'', Log_EstimatedCount 1,
       Db_Find ''users'', Es_Bulk [IndexAction \<lparr>a_index = ''users'', a_type = ''_doc'', a_id = ''1''\<rparr>,
       Payload [(''name'', JString ''Ann''), (''signup'', JString ''1970-01-01T00:00:00.000Z'')]]]"
  let ?tr' = "?tr @ [Log_Syncing ''orders'', Db_EstimatedDocumentCount ''orders'',
       Log_EstimatedCount 1, Db_Find ''orders'']"
  let ?utr = "[Log_Syncing ''users'', Db_EstimatedDocumentCount ''users'', Log_EstimatedCount 1,
       Db_Find ''users'']"
  let ?docs = "[[(''_id'', JString ''1''), (''name'', JString ''Ann''), (''signup'', JDate (Some 0))]]"
  have p: "sync_collections demo_env None [] [demo_schema ''users''] = (?tr, Inr ())"
    by (simp add: sync_collection_def fetch_collection_def demo_env_def demo_schema_def Let_def
        get_property_def call_toString_def rest_data_def flag_set_def serialize_def spread_def
        call_toISOString_def instanceof_Object_def)
  have f: "fetch_collection demo_env ?tr (cs_name (demo_schema ''orders'')) = (?tr', ?docs)"
    by (simp add: sync_collection_def fetch_collection_def demo_env_def demo_schema_def Let_def
        get_property_def call_toString_def rest_data_def flag_set_def serialize_def spread_def
        call_toISOString_def instanceof_Object_def)
  have d: "?docs \<noteq> []" by simp
  have b: "build_bulk demo_env None (cs_name (demo_schema ''orders'')) ?docs = Inr [IndexAction \<lparr>a_index = ''orders'', a_type = ''_doc'', a_id = ''1''\<rparr>,
       Payload [(''name'', JString ''Ann''), (''signup'', JString ''1970-01-01T00:00:00.000Z'')]]"
    by (simp add: sync_collection_def fetch_collection_def demo_env_def demo_schema_def Let_def
        get_property_def call_toString_def rest_data_def flag_set_def serialize_def spread_def
        call_toISOString_def instanceof_Object_def)
  have t: "truthy (res_error (es_bulk demo_env ?tr' [IndexAction \<lparr>a_index = ''orders'', a_type = ''_doc'', a_id = ''1''\<rparr>,
       Payload [(''name'', JString ''Ann''), (''signup'', JString ''1970-01-01T00:00:00.000Z'')]]))"
    by (simp add: demo_env_def)
  have "sync_collections demo_env None []
     ([demo_schema ''users''] @ demo_schema ''orders'' # [demo_schema ''logs''])
   = (?tr' @ [Es_Bulk [IndexAction \<lparr>a_index = ''orders'', a_type = ''_doc'', a_id = ''1''\<rparr>,
       Payload [(''name'', JString ''Ann''), (''signup'', JString ''1970-01-01T00:00:00.000Z'')]]],
      Inl (CLIError (''Error syncing '' @ cs_name (demo_schema ''orders'') @ '': ''
                     @ js_toString demo_env (res_error (es_bulk demo_env ?tr' [IndexAction \<lparr>a_index = ''orders'', a_type = ''_doc'', a_id = ''1''\<rparr>,
       Payload [(''name'', JString ''Ann''), (''signup'', JString ''1970-01-01T00:00:00.000Z'')]])))))"
    by (rule bulk_error_halts[OF p f d b, THEN conjunct1, THEN mp, OF t])
  then have one: "sync_collections demo_env None []
     ([demo_schema ''users''] @ demo_schema ''orders'' # [demo_schema ''logs''])
   = (?tr' @ [Es_Bulk [IndexAction \<lparr>a_index = ''orders'', a_type = ''_doc'', a_id = ''1''\<rparr>,
       Payload [(''name'', JString ''Ann''), (''signup'', JString ''1970-01-01T00:00:00.000Z'')]]], Inl (CLIError ''Error syncing orders: boom''))"
    by (simp add: demo_env_def demo_schema_def)
  have p0: "sync_collections demo_env None [] [] = ([], Inr ())" by simp
  have f0: "fetch_collection demo_env [] (cs_name (demo_schema ''users'')) = (?utr, ?docs)"
    by (simp add: sync_collection_def fetch_collection_def demo_env_def demo_schema_def Let_def
        get_property_def call_toString_def rest_data_def flag_set_def serialize_def spread_def
        call_toISOString_def instanceof_Object_def)
  have b0: "build_bulk demo_env None (cs_name (demo_schema ''users'')) ?docs = Inr [IndexAction \<lparr>a_index = ''users'', a_type = ''_doc'', a_id = ''1''\<rparr>,
       Payload [(''name'', JString ''Ann''), (''signup'', JString ''1970-01-01T00:00:00.000Z'')]]"
    by (simp add: sync_collection_def fetch_collection_def demo_env_def demo_schema_def Let_def
        get_property_def call_toString_def rest_data_def flag_set_def serialize_def spread_def
        call_toISOString_def instanceof_Object_def)
  have t0: "res_error (es_bulk demo_env ?utr [IndexAction \<lparr>a_index = ''users'', a_type = ''_doc'', a_id = ''1''\<rparr>,
       Payload [(''name'', JString ''Ann''), (''signup'', JString ''1970-01-01T00:00:00.000Z'')]]) = JUndefined"
    by (simp add: demo_env_def)
  have two: "sync_collections demo_env None [] ([] @ demo_schema ''users'' # [demo_schema ''logs''])
   = sync_collections demo_env None (?utr @ [Es_Bulk [IndexAction \<lparr>a_index = ''users'', a_type = ''_doc'', a_id = ''1''\<rparr>,
       Payload [(''name'', JString ''Ann''), (''signup'', JString ''1970-01-01T00:00:00.000Z'')]]]) [demo_schema ''logs'']"
    by (rule bulk_error_halts[OF p0 f0 d b0, THEN conjunct2, THEN mp, OF t0])
  from one two show ?thesis by simp
qed

text \<open>
  Claim C10.  Take a collection that the loop reaches.  When its fetch returns no
  document, the turn ends after the fetch without an error and without a bulk request,
  and the loop goes on with the collections after it.  In any turn, a bulk request is
  sent only when the fetch returned at least one document.
\<close>

theorem empty_collection_sends_no_bulk:
  assumes "sync_collections e flag tr0 pre = (tr, Inr ())"
    and "fetch_collection e tr (cs_name c) = (tr', docs)"
  shows "(docs = [] \<longrightarrow>
            sync_collection e flag tr c = (tr', Inr ())
          \<and> (\<forall>b. Es_Bulk b \<notin> set (drop (length tr) tr'))
          \<and> sync_collections e flag tr0 (pre @ c # rest) = sync_collections e flag tr' rest)
       \<and> (\<forall>b. Es_Bulk b \<in> set (drop (length tr) (fst (sync_collection e flag tr c))) \<longrightarrow>
            docs \<noteq> [])"
proof (intro conjI allI impI)
  have step: "sync_collections e flag tr0 (pre @ c # rest) = sync_collections e flag tr (c # rest)"
    by (simp add: sync_collections_append assms(1))
  {
    assume "docs = []"
    then show t: "sync_collection e flag tr c = (tr', Inr ())"
      by (simp add: sync_collection_def assms(2))
    show "sync_collections e flag tr0 (pre @ c # rest) = sync_collections e flag tr' rest"
      unfolding step by (simp add: t)
  }
  {
    fix b
    show "Es_Bulk b \<notin> set (drop (length tr) tr')"
      unfolding fetch_collection_events[OF assms(2)] by simp
  }
  {
    fix b
    assume "Es_Bulk b \<in> set (drop (length tr) (fst (sync_collection e flag tr c)))"
    from sync_collection_bulk_sent[OF assms(2) this] show "docs \<noteq> []" by blast
  }
qed

text \<open>
  An instance: \<^verbatim>\<open>logs\<close> has no document; its turn is the two log lines, the count and
  the fetch, and the loop goes on with \<^verbatim>\<open>users\<close>.
\<close>

theorem empty_collection_sends_no_bulk_witness:
  "sync_collection demo_env None [] (demo_schema ''logs'')
   = ([Log_Syncing ''logs'', Db_EstimatedDocumentCount ''logs'', Log_EstimatedCount 0,
       Db_Find ''logs''], Inr ())
   \<and> sync_collections demo_env None [] ([] @ demo_schema ''logs'' # [demo_schema ''users''])
   = sync_collections demo_env None
       [Log_Syncing ''logs'', Db_EstimatedDocumentCount ''logs'', Log_EstimatedCount 0,
        Db_Find ''logs'']
       [demo_schema ''users'']"
proof -
  let ?tr' = "[Log_Syncing ''logs'', Db_EstimatedDocumentCount ''logs'', Log_EstimatedCount 0,
       Db_Find ''logs'']"
  have p: "sync_collections demo_env None [] [] = ([], Inr ())" by simp
  have f: "fetch_collection demo_env [] (cs_name (demo_schema ''logs'')) = (?tr', [])"
    by (simp add: sync_collection_def fetch_collection_def demo_env_def demo_schema_def Let_def
        get_property_def call_toString_def rest_data_def flag_set_def serialize_def spread_def
        call_toISOString_def instanceof_Object_def)
  note t = empty_collection_sends_no_bulk[OF p f, of "[demo_schema ''users'']", THEN conjunct1,
      THEN mp, OF refl]
  from t[THEN conjunct1] t[THEN conjunct2, THEN conjunct2] show ?thesis by (rule conjI)
qed

end
